theory Spec2Isabelle
  imports Complex_Main "HOL-Library.Word"
begin

section \<open>JavaScript values\<close>

text \<open>
  A JavaScript string is a sequence of 16-bit code units. String literals of the source are
  written \<open>js ''...''\<close>.
\<close>

type_synonym code_unit = "16 word"
type_synonym jsstring = "code_unit list"

definition js :: "string \<Rightarrow> jsstring" where
  "js s = map (\<lambda>c. of_nat (of_char c)) s"

text \<open>
  A number is an IEEE double. Only its type and its truthiness are observed here, so a finite
  double is represented by its real value (both zeros by 0).
\<close>

datatype jsnumber = Finite real | PosInfinity | NegInfinity | NaN

text \<open>
  The values \<open>JSON.parse\<close> returns. An object is the list of its own properties in the order
  in which JavaScript enumerates them (the order of \<open>Object.keys\<close>); its keys are distinct.
  \<open>undefined\<close> is not a JSON value: a value that may be \<open>undefined\<close> is a \<open>json option\<close>,
  with \<open>None\<close> for \<open>undefined\<close>.
\<close>

datatype json =
    JNull
  | JBool bool
  | JNum jsnumber
  | JStr jsstring
  | JArr "json list"
  | JObj "(jsstring \<times> json) list"

type_synonym jsval = "json option"

text \<open>ToBoolean: \<open>undefined\<close>, \<open>null\<close>, \<open>false\<close>, \<open>0\<close>, \<open>NaN\<close> and \<open>""\<close> are falsy.\<close>

fun truthy :: "jsval \<Rightarrow> bool" where
  "truthy None = False"
| "truthy (Some JNull) = False"
| "truthy (Some (JBool b)) = b"
| "truthy (Some (JNum (Finite r))) = (r \<noteq> 0)"
| "truthy (Some (JNum NaN)) = False"
| "truthy (Some (JNum PosInfinity)) = True"
| "truthy (Some (JNum NegInfinity)) = True"
| "truthy (Some (JStr s)) = (s \<noteq> [])"
| "truthy (Some (JArr xs)) = True"
| "truthy (Some (JObj kvs)) = True"

text \<open>
  Property access \<open>v.k\<close> and \<open>v?.k\<close>, for the property names the source reads (\<open>type\<close>,
  \<open>event\<close>, \<open>delta\<close>, \<open>text\<close>, \<open>model\<close>, \<open>modelUsage\<close>, \<open>jsonrpc\<close>, \<open>id\<close>, \<open>method\<close>,
  \<open>params\<close>, \<open>name\<close>): none of them is a property of an array, a string, a number, a boolean
  or of \<open>Object.prototype\<close>, so only an object can have one, and on every other value the
  access gives \<open>undefined\<close>. On \<open>undefined\<close> and \<open>null\<close> the optional chain \<open>?.\<close> gives
  \<open>undefined\<close>; the source uses the plain \<open>.\<close> only on values it has found to be neither.
\<close>

fun member :: "jsval \<Rightarrow> jsstring \<Rightarrow> jsval" where
  "member (Some (JObj kvs)) k = map_of kvs k"
| "member v k = None"

section \<open>The line framer: \<open>StreamJsonParser.parse\<close>\<close>

definition LF :: code_unit where "LF = 0x0A"
definition CR :: code_unit where "CR = 0x0D"

text \<open>
  \<open>buffer.split(/\r?\n/)\<close>: the pieces between the matches of the separator, scanning from
  the left. At a position the separator matches a line feed, or a carriage return followed by
  a line feed. The result is never empty: a string with no separator is its own only piece.
\<close>

fun split_lines :: "jsstring \<Rightarrow> jsstring list" where
  "split_lines [] = [[]]"
| "split_lines (c # cs) =
     (if c = LF then [] # split_lines cs
      else case cs of
        d # ds \<Rightarrow>
          if c = CR \<and> d = LF then [] # split_lines ds
          else (case split_lines cs of l # ls \<Rightarrow> (c # l) # ls | [] \<Rightarrow> [[c]])
      | [] \<Rightarrow> [[c]])"

subsection \<open>The ANSI escape pattern\<close>

text \<open>
  \<open>[\u001b\u009b][[()#;?]*(?:[0-9]{1,4}(?:;[0-9]{0,4})*)?[0-9A-ORZcf-nqry=><]\<close>

  The matcher is the backtracking one of JavaScript: each part of the pattern maps a position
  (the rest of the string) to the positions where it can end, the one tried first at the head.
\<close>

definition is_introducer :: "code_unit \<Rightarrow> bool" where
  "is_introducer c = (c = 0x1B \<or> c = 0x9B)"

definition is_prefix_char :: "code_unit \<Rightarrow> bool" where
  "is_prefix_char c = (c = 0x5B \<or> c = 0x28 \<or> c = 0x29 \<or> c = 0x23 \<or> c = 0x3B \<or> c = 0x3F)"

definition is_digit :: "code_unit \<Rightarrow> bool" where
  "is_digit c = (0x30 \<le> c \<and> c \<le> 0x39)"

definition is_semicolon :: "code_unit \<Rightarrow> bool" where
  "is_semicolon c = (c = 0x3B)"

definition is_final :: "code_unit \<Rightarrow> bool" where
  "is_final c =
     (is_digit c \<or> (0x41 \<le> c \<and> c \<le> 0x4F) \<or> c = 0x52 \<or> c = 0x5A \<or> c = 0x63 \<or>
      (0x66 \<le> c \<and> c \<le> 0x6E) \<or> c = 0x71 \<or> c = 0x72 \<or> c = 0x79 \<or>
      c = 0x3D \<or> c = 0x3E \<or> c = 0x3C)"

text \<open>One code unit of a class.\<close>

fun one_of :: "(code_unit \<Rightarrow> bool) \<Rightarrow> jsstring \<Rightarrow> jsstring list" where
  "one_of p [] = []"
| "one_of p (c # cs) = (if p c then [cs] else [])"

text \<open>\<open>X*\<close> on a class, greedy: the longest run first.\<close>

fun star_of :: "(code_unit \<Rightarrow> bool) \<Rightarrow> jsstring \<Rightarrow> jsstring list" where
  "star_of p [] = [[]]"
| "star_of p (c # cs) = (if p c then star_of p cs @ [c # cs] else [c # cs])"

text \<open>\<open>X{0,n}\<close> on a class, greedy.\<close>

fun upto_of :: "nat \<Rightarrow> (code_unit \<Rightarrow> bool) \<Rightarrow> jsstring \<Rightarrow> jsstring list" where
  "upto_of 0 p s = [s]"
| "upto_of (Suc n) p [] = [[]]"
| "upto_of (Suc n) p (c # cs) = (if p c then upto_of n p cs @ [c # cs] else [c # cs])"

lemma one_of_shorter: "r \<in> set (one_of p s) \<Longrightarrow> length r < length s"
  by (cases s) (auto split: if_splits)

lemma star_of_length: "r \<in> set (star_of p s) \<Longrightarrow> length r \<le> length s"
  by (induction s) (auto split: if_splits)

lemma upto_of_length: "r \<in> set (upto_of n p s) \<Longrightarrow> length r \<le> length s"
  by (induction n p s rule: upto_of.induct) (auto split: if_splits)

text \<open>\<open>(?:;[0-9]{0,4})*\<close>, greedy: one more group first, then none.\<close>

function semi_groups :: "jsstring \<Rightarrow> jsstring list" where
  "semi_groups s =
     List.bind (List.bind (one_of is_semicolon s) (upto_of 4 is_digit)) semi_groups @ [s]"
  by pat_completeness auto
termination
proof (relation "measure length")
  show "wf (measure length)" by simp
next
  fix s r :: jsstring
  assume "r \<in> set (List.bind (one_of is_semicolon s) (upto_of 4 is_digit))"
  then obtain q where "q \<in> set (one_of is_semicolon s)" "r \<in> set (upto_of 4 is_digit q)"
    by (auto simp: List.bind_def)
  then have "length q < length s" "length r \<le> length q"
    by (auto dest: one_of_shorter upto_of_length)
  then have "length r < length s"
    by simp
  then show "(r, s) \<in> measure length" by simp
qed

declare semi_groups.simps [simp del]

text \<open>\<open>(?:[0-9]{1,4}(?:;[0-9]{0,4})*)?\<close>, greedy: the group first, then nothing.\<close>

definition parameters :: "jsstring \<Rightarrow> jsstring list" where
  "parameters s =
     List.bind (List.bind (one_of is_digit s) (upto_of 3 is_digit)) semi_groups @ [s]"

text \<open>The whole pattern at one position; the match JavaScript takes is the head.\<close>

definition ansi_match :: "jsstring \<Rightarrow> jsstring list" where
  "ansi_match s =
     List.bind (List.bind (List.bind (one_of is_introducer s) (star_of is_prefix_char))
       parameters) (one_of is_final)"

lemma in_bind: "r \<in> set (List.bind xs f) \<longleftrightarrow> (\<exists>q \<in> set xs. r \<in> set (f q))"
  by (auto simp: List.bind_def)

lemma digits_then_shorter:
  "r \<in> set (List.bind (one_of p s) (upto_of n p')) \<Longrightarrow> length r < length s"
proof -
  assume "r \<in> set (List.bind (one_of p s) (upto_of n p'))"
  then obtain q where "q \<in> set (one_of p s)" "r \<in> set (upto_of n p' q)"
    unfolding in_bind by blast
  then have "length q < length s" "length r \<le> length q"
    by (auto dest: one_of_shorter upto_of_length)
  then show ?thesis by simp
qed

lemma semi_groups_length: "r \<in> set (semi_groups s) \<Longrightarrow> length r \<le> length s"
proof (induction s arbitrary: r rule: semi_groups.induct)
  case (1 s)
  from "1.prems" consider "r = s"
    | q where "q \<in> set (List.bind (one_of is_semicolon s) (upto_of 4 is_digit))"
        "r \<in> set (semi_groups q)"
    by (subst (asm) semi_groups.simps) (auto simp: in_bind)
  then show ?case
  proof cases
    case 1
    then show ?thesis by simp
  next
    case 2
    then have "length r \<le> length q"
      using "1.IH" by blast
    moreover from 2 have "length q < length s"
      by (blast dest: digits_then_shorter)
    ultimately show ?thesis by simp
  qed
qed

lemma parameters_length: "r \<in> set (parameters s) \<Longrightarrow> length r \<le> length s"
proof -
  assume "r \<in> set (parameters s)"
  then consider "r = s"
    | q where "q \<in> set (List.bind (one_of is_digit s) (upto_of 3 is_digit))"
        "r \<in> set (semi_groups q)"
    by (auto simp: parameters_def in_bind)
  then show ?thesis
  proof cases
    case 1
    then show ?thesis by simp
  next
    case 2
    then have "length r \<le> length q" "length q < length s"
      by (blast dest: semi_groups_length digits_then_shorter)+
    then show ?thesis by simp
  qed
qed

lemma ansi_match_shorter: "r \<in> set (ansi_match s) \<Longrightarrow> length r < length s"
proof -
  assume "r \<in> set (ansi_match s)"
  then obtain a b c where "a \<in> set (one_of is_introducer s)"
    "b \<in> set (star_of is_prefix_char a)" "c \<in> set (parameters b)"
    "r \<in> set (one_of is_final c)"
    by (auto simp: ansi_match_def in_bind)
  then have "length a < length s" "length b \<le> length a" "length c \<le> length b"
    "length r < length c"
    by (auto dest: one_of_shorter star_of_length parameters_length)
  then show ?thesis by simp
qed

text \<open>
  \<open>line.replace(ansiRegex, '')\<close> with the global flag: every match is removed, the search
  going on after it; where the pattern does not match, the code unit is kept.
\<close>

function strip_ansi :: "jsstring \<Rightarrow> jsstring" where
  "strip_ansi [] = []"
| "strip_ansi (c # cs) =
     (case ansi_match (c # cs) of
        r # _ \<Rightarrow> strip_ansi r
      | [] \<Rightarrow> c # strip_ansi cs)"
  by pat_completeness auto
termination
proof (relation "measure length")
  show "wf (measure length)" by simp
next
  fix c :: code_unit and cs r rs :: jsstring and rss :: "jsstring list"
  assume "ansi_match (c # cs) = r # rss"
  then have "r \<in> set (ansi_match (c # cs))" by simp
  then have "length r < length (c # cs)"
    by (rule ansi_match_shorter)
  then show "(r, c # cs) \<in> measure length"
    by simp
next
  fix c :: code_unit and cs :: jsstring
  show "(cs, c # cs) \<in> measure length" by simp
qed

subsection \<open>\<open>trim\<close>\<close>

text \<open>The white space and line terminators of ECMAScript, which \<open>trim\<close> removes at both ends.\<close>

definition is_space :: "code_unit \<Rightarrow> bool" where
  "is_space c =
     ((0x09 \<le> c \<and> c \<le> 0x0D) \<or> c = 0x20 \<or> c = 0xA0 \<or> c = 0x1680 \<or>
      (0x2000 \<le> c \<and> c \<le> 0x200A) \<or> c = 0x2028 \<or> c = 0x2029 \<or> c = 0x202F \<or>
      c = 0x205F \<or> c = 0x3000 \<or> c = 0xFEFF)"

definition trim :: "jsstring \<Rightarrow> jsstring" where
  "trim s = rev (dropWhile is_space (rev (dropWhile is_space s)))"

subsection \<open>\<open>parse\<close>\<close>

record StreamJsonParser =
  buffer :: jsstring

definition new_parser :: StreamJsonParser where
  "new_parser = \<lparr>buffer = []\<rparr>"

text \<open>
  The loop over the complete lines. \<open>JSON.parse\<close> is the parameter \<open>json_parse\<close>, \<open>None\<close>
  where it throws; the \<open>catch\<close> drops the line.
\<close>

fun decode_lines :: "(jsstring \<Rightarrow> json option) \<Rightarrow> jsstring list \<Rightarrow> json list" where
  "decode_lines json_parse [] = []"
| "decode_lines json_parse (line # lines) =
     (let cleanLine = trim (strip_ansi line) in
      if cleanLine = [] then decode_lines json_parse lines
      else if take 1 cleanLine = js ''{'' then
        (case json_parse cleanLine of
           Some event \<Rightarrow> event # decode_lines json_parse lines
         | None \<Rightarrow> decode_lines json_parse lines)
      else decode_lines json_parse lines)"

text \<open>
  \<open>parse(chunk)\<close>: the events, and the parser with its new buffer. \<open>lines.pop() || ''\<close> is the
  last piece: the list is never empty, and an empty last piece is the empty string already.
\<close>

definition parse ::
  "(jsstring \<Rightarrow> json option) \<Rightarrow> StreamJsonParser \<Rightarrow> jsstring \<Rightarrow> json list \<times> StreamJsonParser" where
  "parse json_parse p chunk =
     (let lines = split_lines (buffer p @ chunk)
      in (decode_lines json_parse (butlast lines), p\<lparr>buffer := last lines\<rparr>))"

definition reset :: "StreamJsonParser \<Rightarrow> StreamJsonParser" where
  "reset p = p\<lparr>buffer := []\<rparr>"

section \<open>The event classifier\<close>

text \<open>
  A \<open>StreamEvent\<close> is an object (the parser hands \<open>JSON.parse\<close> only lines that start with
  a brace): the list of its properties.
\<close>

type_synonym StreamEvent = "(jsstring \<times> json) list"

text \<open>
  \<open>extractTextDelta\<close>. The result is \<open>None\<close> for \<open>null\<close>. \<open>x || null\<close> is \<open>x\<close> when \<open>x\<close> is truthy
  and \<open>null\<close> otherwise.
\<close>

definition extractTextDelta :: "StreamEvent \<Rightarrow> json option" where
  "extractTextDelta event =
     (if map_of event (js ''type'') = Some (JStr (js ''stream_event'')) \<and>
         member (map_of event (js ''event'')) (js ''type'') =
           Some (JStr (js ''content_block_delta''))
      then
        (let text = member (member (map_of event (js ''event'')) (js ''delta'')) (js ''text'')
         in if truthy text then text else None)
      else None)"

definition isMessageEndEvent :: "StreamEvent \<Rightarrow> bool" where
  "isMessageEndEvent event =
     (map_of event (js ''type'') = Some (JStr (js ''stream_event'')) \<and>
      member (map_of event (js ''event'')) (js ''type'') = Some (JStr (js ''message_stop'')))"

definition isInitEvent :: "StreamEvent \<Rightarrow> bool" where
  "isInitEvent event =
     (map_of event (js ''type'') = Some (JStr (js ''system'')) \<and>
      map_of event (js ''subtype'') = Some (JStr (js ''init'')))"

definition isResultEvent :: "StreamEvent \<Rightarrow> bool" where
  "isResultEvent event = (map_of event (js ''type'') = Some (JStr (js ''result'')))"

definition isErrorEvent :: "StreamEvent \<Rightarrow> bool" where
  "isErrorEvent event =
     (map_of event (js ''type'') = Some (JStr (js ''system'')) \<and>
      map_of event (js ''subtype'') = Some (JStr (js ''error'')))"

text \<open>The decimal digits of a natural number, as \<open>String(n)\<close> and \<open>`${n}`\<close> write it.\<close>

fun decimal :: "nat \<Rightarrow> jsstring" where
  "decimal n =
     (if n < 10 then [0x30 + of_nat n]
      else decimal (n div 10) @ [0x30 + of_nat (n mod 10)])"

declare decimal.simps [simp del]

text \<open>
  \<open>Object.keys\<close> of a truthy value: the keys of an object in its enumeration order, the
  indices of an array and of a string, nothing for a number or a boolean.
\<close>

fun Object_keys :: "json \<Rightarrow> jsstring list" where
  "Object_keys (JObj kvs) = map fst kvs"
| "Object_keys (JArr xs) = map decimal [0..<length xs]"
| "Object_keys (JStr s) = map decimal [0..<length s]"
| "Object_keys v = []"

definition extractModel :: "StreamEvent \<Rightarrow> jsstring option" where
  "extractModel event =
     (if map_of event (js ''type'') = Some (JStr (js ''result'')) then
        (case map_of event (js ''model'') of
           Some (JStr m) \<Rightarrow> Some m
         | _ \<Rightarrow>
           (case map_of event (js ''modelUsage'') of
              Some usage \<Rightarrow>
                if truthy (Some usage) then
                  (case Object_keys usage of
                     k # _ \<Rightarrow> Some k
                   | [] \<Rightarrow> None)
                else None
            | None \<Rightarrow> None))
      else None)"

section \<open>The review session: the exit listener of \<open>useCodeReview\<close>\<close>

datatype ReviewStatus = Idle | Initializing | Streaming | Complete | Error

record ReviewSession =
  content :: jsstring
  status :: ReviewStatus
  error :: "jsstring option"
  cost :: "jsnumber option"
  model :: "jsstring option"
  ptyIdRef :: "jsstring option"

definition show_int :: "int \<Rightarrow> jsstring" where
  "show_int i = (if i < 0 then js ''-'' @ decimal (nat (- i)) else decimal (nat i))"

text \<open>
  The listener \<open>startReview\<close> registers with \<open>terminal.onExit\<close>. It closes over \<open>ptyId\<close> and
  over \<open>status\<close>, the constant of the render in which \<open>startReview\<close> was made: the parameter
  \<open>status0\<close>. The event is \<open>{id, exitCode}\<close>, here \<open>ev_id\<close> and \<open>exitCode\<close>. The state it
  changes through \<open>setStatus\<close> and \<open>setError\<close> is the session \<open>s\<close>.
\<close>

definition onExit ::
  "jsstring \<Rightarrow> ReviewStatus \<Rightarrow> jsstring \<Rightarrow> int \<Rightarrow> ReviewSession \<Rightarrow> ReviewSession" where
  "onExit ptyId status0 ev_id exitCode s =
     (if ev_id \<noteq> ptyId then s
      else
        (if exitCode \<noteq> 0 \<and> status0 \<noteq> Complete then
           s\<lparr>status := Error,
             error := Some (js ''Process exited with code '' @ show_int exitCode)\<rparr>
         else if status0 \<noteq> Error then s\<lparr>status := Complete\<rparr>
         else s)\<lparr>ptyIdRef := None\<rparr>)"

section \<open>The discovery publisher\<close>

text \<open>
  The file system as the bridge uses it. A path is the list of the segments given to
  \<open>path.join\<close>; the parent of a path is the path without its last segment. A file holds a
  mode and the value whose \<open>JSON.stringify\<close> text was written to it: \<open>JSON.parse\<close> of that
  text is the value again. The operations fail where this state makes them fail (a missing
  parent, a file where a directory is needed, a directory where a file is needed).
\<close>

type_synonym path = "jsstring list"

datatype node = Directory nat | File nat json

type_synonym filesystem = "path \<Rightarrow> node option"

datatype fs_error = ENOENT | EEXIST | ENOTDIR | EISDIR

text \<open>\<open>fs.mkdirSync(dir, {recursive: true, mode})\<close>: every missing ancestor is made too.\<close>

fun mkdir_each :: "filesystem \<Rightarrow> path list \<Rightarrow> nat \<Rightarrow> fs_error + filesystem" where
  "mkdir_each fs [] mode = Inr fs"
| "mkdir_each fs (p # ps) mode =
     (case fs p of
        None \<Rightarrow> mkdir_each (fs(p \<mapsto> Directory mode)) ps mode
      | Some (Directory m) \<Rightarrow> mkdir_each fs ps mode
      | Some (File m c) \<Rightarrow> Inl (if ps = [] then EEXIST else ENOTDIR))"

definition mkdirSync_recursive :: "filesystem \<Rightarrow> path \<Rightarrow> nat \<Rightarrow> fs_error + filesystem" where
  "mkdirSync_recursive fs dir mode =
     mkdir_each fs (map (\<lambda>n. take n dir) [1..<Suc (length dir)]) mode"

text \<open>
  \<open>fs.writeFileSync(path, data, {mode})\<close>: the content of an existing file is replaced and
  its mode stays; a new file gets the mode.
\<close>

definition writeFileSync :: "filesystem \<Rightarrow> path \<Rightarrow> json \<Rightarrow> nat \<Rightarrow> fs_error + filesystem" where
  "writeFileSync fs p data mode =
     (case fs (butlast p) of
        None \<Rightarrow> Inl ENOENT
      | Some (File m c) \<Rightarrow> Inl ENOTDIR
      | Some (Directory d) \<Rightarrow>
          (case fs p of
             None \<Rightarrow> Inr (fs(p \<mapsto> File mode data))
           | Some (File m c) \<Rightarrow> Inr (fs(p \<mapsto> File m data))
           | Some (Directory m) \<Rightarrow> Inl EISDIR))"

definition existsSync :: "filesystem \<Rightarrow> path \<Rightarrow> bool" where
  "existsSync fs p = (fs p \<noteq> None)"

definition unlinkSync :: "filesystem \<Rightarrow> path \<Rightarrow> fs_error + filesystem" where
  "unlinkSync fs p =
     (case fs p of
        None \<Rightarrow> Inl ENOENT
      | Some (File m c) \<Rightarrow> Inr (fs(p := None))
      | Some (Directory m) \<Rightarrow> Inl EISDIR)"

text \<open>What the publisher reads of its process: two of \<open>process.env\<close> and \<open>os\<close>, and \<open>process\<close>.\<close>

record process =
  CLAUDE_CONFIG_DIR :: "jsstring option"
  homedir :: jsstring
  pid :: nat
  platform :: jsstring

text \<open>The modes: \<open>0o700\<close> is 448 and \<open>0o600\<close> is 384.\<close>

definition ensureDir :: "filesystem \<Rightarrow> path \<Rightarrow> fs_error + filesystem" where
  "ensureDir fs dir = mkdirSync_recursive fs dir 448"

definition getIdeDir :: "process \<Rightarrow> path" where
  "getIdeDir env =
     (case CLAUDE_CONFIG_DIR env of
        Some d \<Rightarrow> if d \<noteq> [] then [d, js ''ide''] else [homedir env, js ''.claude'', js ''ide'']
      | None \<Rightarrow> [homedir env, js ''.claude'', js ''ide''])"

text \<open>
  \<open>writeLockFile\<close>. The two optional arguments are \<open>None\<close> when the caller leaves them out.
  It has no \<open>try\<close>: an error of the file system is its result.
\<close>

definition writeLockFile ::
  "process \<Rightarrow> filesystem \<Rightarrow> nat \<Rightarrow> jsstring \<Rightarrow> jsstring list option \<Rightarrow> jsstring option \<Rightarrow>
   fs_error + (filesystem \<times> path)" where
  "writeLockFile env fs port authToken workspaceFolders ideName =
     (let ideDir = getIdeDir env in
      case ensureDir fs ideDir of
        Inl e \<Rightarrow> Inl e
      | Inr fs1 \<Rightarrow>
          (let lockPath = ideDir @ [decimal port @ js ''.lock''];
               payload = JObj
                 [(js ''pid'', JNum (Finite (real (pid env)))),
                  (js ''workspaceFolders'',
                    JArr (map JStr (case workspaceFolders of None \<Rightarrow> [] | Some fo \<Rightarrow> fo))),
                  (js ''ideName'',
                    JStr (case ideName of None \<Rightarrow> js ''EnsoAI'' | Some n \<Rightarrow> n)),
                  (js ''transport'', JStr (js ''ws'')),
                  (js ''runningInWindows'', JBool (platform env = js ''win32'')),
                  (js ''authToken'', JStr authToken)]
           in case writeFileSync fs1 lockPath payload 384 of
                Inl e \<Rightarrow> Inl e
              | Inr fs2 \<Rightarrow> Inr (fs2, lockPath)))"

text \<open>\<open>deleteLockFile\<close>: the \<open>catch\<close> ignores an error of \<open>unlinkSync\<close>.\<close>

definition deleteLockFile :: "process \<Rightarrow> filesystem \<Rightarrow> nat \<Rightarrow> filesystem" where
  "deleteLockFile env fs port =
     (let lockPath = getIdeDir env @ [decimal port @ js ''.lock''] in
      if existsSync fs lockPath then
        (case unlinkSync fs lockPath of
           Inr fs1 \<Rightarrow> fs1
         | Inl e \<Rightarrow> fs)
      else fs)"

section \<open>The JSON-RPC session handler and the bridge server\<close>

definition MCP_TOOLS :: "json list" where
  "MCP_TOOLS = []"

text \<open>
  The messages the bridge sends, each the object handed to \<open>JSON.stringify\<close>:
  \<open>{jsonrpc: '2.0', id, result}\<close>, \<open>{jsonrpc: '2.0', id, error: {code, message}}\<close> and
  \<open>{jsonrpc: '2.0', method, params}\<close>. The three error texts are \<open>Server not initialized\<close>,
  \<open>Tool not found: ${toolName}\<close> and \<open>Method not found: ${method}\<close>, kept with the value
  they interpolate.
\<close>

datatype error_text =
    Server_not_initialized
  | Tool_not_found jsval
  | Method_not_found jsval

datatype message =
    Response json json
  | Error_response json int error_text
  | Notification jsstring json

text \<open>
  A socket of the \<open>ws\<close> library as the bridge sees it: its \<open>readyState\<close> (\<open>OPEN\<close> is 1), the
  call of \<open>close(code, reason)\<close> that started its closing, the messages \<open>send\<close> has put on the
  wire, and whether the bridge has registered its \<open>message\<close> and \<open>close\<close> listeners.
  \<open>send\<close> on a socket that is closing or closed puts nothing on the wire; \<open>close\<close> on an open
  socket makes it \<open>CLOSING\<close>, and does nothing on one that is closing or closed.
\<close>

datatype ready_state = CONNECTING | OPEN | CLOSING | CLOSED

datatype close_call = Close_call "nat option" jsstring

record WebSocket =
  readyState :: ready_state
  closed :: "close_call option"
  sent :: "message list"
  message_listener :: bool
  close_listener :: bool

definition new_socket :: WebSocket where
  "new_socket =
     \<lparr>readyState = OPEN, closed = None, sent = [], message_listener = False,
      close_listener = False\<rparr>"

definition ws_send :: "message \<Rightarrow> WebSocket \<Rightarrow> WebSocket" where
  "ws_send m ws = (if readyState ws = OPEN then ws\<lparr>sent := sent ws @ [m]\<rparr> else ws)"

definition ws_close :: "close_call \<Rightarrow> WebSocket \<Rightarrow> WebSocket" where
  "ws_close c ws =
     (if readyState ws = OPEN then ws\<lparr>readyState := CLOSING, closed := Some c\<rparr> else ws)"

text \<open>
  The state of \<open>startClaudeIdeBridge\<close>: the token, the one handler it makes with
  \<open>createJsonRpcHandler\<close> (its \<open>ideName\<close> and its variable \<open>initialized\<close>), \<open>currentClient\<close>, and
  the sockets the server has handed to the \<open>connection\<close> listener, a socket being named by
  its index.
\<close>

record Bridge =
  authToken :: jsstring
  ideName :: jsstring
  initialized :: bool
  currentClient :: "nat option"
  sockets :: "WebSocket list"

text \<open>The token is \<open>crypto.randomUUID()\<close>, a parameter.\<close>

definition startClaudeIdeBridge :: "jsstring \<Rightarrow> jsstring \<Rightarrow> Bridge" where
  "startClaudeIdeBridge token name =
     \<lparr>authToken = token, ideName = name, initialized = False, currentClient = None,
      sockets = []\<rparr>"

definition update_socket :: "Bridge \<Rightarrow> nat \<Rightarrow> (WebSocket \<Rightarrow> WebSocket) \<Rightarrow> Bridge" where
  "update_socket st ws f = st\<lparr>sockets := (sockets st)[ws := f (sockets st ! ws)]\<rparr>"

definition safeJsonParse :: "(jsstring \<Rightarrow> json option) \<Rightarrow> jsstring \<Rightarrow> json" where
  "safeJsonParse json_parse s = (case json_parse s of Some v \<Rightarrow> v | None \<Rightarrow> JNull)"

definition reply :: "Bridge \<Rightarrow> nat \<Rightarrow> json \<Rightarrow> json \<Rightarrow> Bridge" where
  "reply st ws msg_id result = update_socket st ws (ws_send (Response msg_id result))"

definition rpc_error :: "Bridge \<Rightarrow> nat \<Rightarrow> json \<Rightarrow> int \<Rightarrow> error_text \<Rightarrow> Bridge" where
  "rpc_error st ws msg_id code text =
     update_socket st ws (ws_send (Error_response msg_id code text))"

text \<open>
  \<open>onMessage(ws, raw)\<close>, the function \<open>createJsonRpcHandler\<close> returns. \<open>JSON.parse\<close> never
  returns \<open>undefined\<close>, so a message is a notification when it has no \<open>id\<close> property.
\<close>

definition onMessage :: "(jsstring \<Rightarrow> json option) \<Rightarrow> Bridge \<Rightarrow> nat \<Rightarrow> jsstring \<Rightarrow> Bridge" where
  "onMessage json_parse st ws rawStr =
     (let msg = Some (safeJsonParse json_parse rawStr) in
      if \<not> truthy msg \<or> member msg (js ''jsonrpc'') \<noteq> Some (JStr (js ''2.0'')) then st
      else
        (case member msg (js ''id'') of
           None \<Rightarrow>
             if member msg (js ''method'') = Some (JStr (js ''notifications/initialized''))
             then st\<lparr>initialized := True\<rparr>
             else st
         | Some msg_id \<Rightarrow>
             (let method = member msg (js ''method'');
                  params = member msg (js ''params'')
              in
                if method = Some (JStr (js ''ping'')) then reply st ws msg_id (JObj [])
                else if method = Some (JStr (js ''initialize'')) then
                  reply st ws msg_id
                    (JObj
                      [(js ''protocolVersion'', JStr (js ''2024-11-05'')),
                       (js ''capabilities'', JObj
                          [(js ''logging'', JObj []),
                           (js ''prompts'', JObj [(js ''listChanged'', JBool True)]),
                           (js ''resources'', JObj
                              [(js ''subscribe'', JBool True), (js ''listChanged'', JBool True)]),
                           (js ''tools'', JObj [(js ''listChanged'', JBool True)])]),
                       (js ''serverInfo'', JObj
                          [(js ''name'', JStr (ideName st)),
                           (js ''version'', JStr (js ''0.0.1''))])])
                else if \<not> initialized st \<and> method \<noteq> Some (JStr (js ''ping'')) then
                  rpc_error st ws msg_id (- 32002) Server_not_initialized
                else if method = Some (JStr (js ''tools/list'')) then
                  reply st ws msg_id (JObj [(js ''tools'', JArr MCP_TOOLS)])
                else if method = Some (JStr (js ''prompts/list'')) then
                  reply st ws msg_id (JObj [(js ''prompts'', JArr [])])
                else if method = Some (JStr (js ''resources/list'')) then
                  reply st ws msg_id (JObj [(js ''resources'', JArr [])])
                else if method = Some (JStr (js ''tools/call'')) then
                  rpc_error st ws msg_id (- 32601) (Tool_not_found (member params (js ''name'')))
                else rpc_error st ws msg_id (- 32601) (Method_not_found method))))"

text \<open>\<open>sendNotification(method, params)\<close>.\<close>

definition sendNotification :: "Bridge \<Rightarrow> jsstring \<Rightarrow> json \<Rightarrow> Bridge" where
  "sendNotification st method params =
     (case currentClient st of
        Some c \<Rightarrow>
          if readyState (sockets st ! c) = OPEN
          then update_socket st c (ws_send (Notification method params))
          else st
      | None \<Rightarrow> st)"

text \<open>
  The listener of the server's \<open>connection\<close> event. The server hands it a new socket, open,
  and the value of the request's \<open>x-claude-code-ide-authorization\<close> header, \<open>None\<close> when
  the request has none.
\<close>

definition on_connection :: "Bridge \<Rightarrow> jsstring option \<Rightarrow> Bridge" where
  "on_connection st token =
     (let ws = length (sockets st);
          st1 = st\<lparr>sockets := sockets st @ [new_socket]\<rparr>
      in
        if token \<noteq> Some (authToken st1) then
          update_socket st1 ws (ws_close (Close_call (Some 1008) (js ''Unauthorized'')))
        else
          (let st2 =
             (case currentClient st1 of
                Some c \<Rightarrow> if c \<noteq> ws then update_socket st1 c (ws_close (Close_call None [])) else st1
              | None \<Rightarrow> st1)
           in update_socket (st2\<lparr>currentClient := Some ws\<rparr>) ws
                (\<lambda>so. so\<lparr>message_listener := True, close_listener := True\<rparr>)))"

text \<open>The listener of a socket's \<open>close\<close> event.\<close>

definition on_close :: "Bridge \<Rightarrow> nat \<Rightarrow> Bridge" where
  "on_close st ws = (if currentClient st = Some ws then st\<lparr>currentClient := None\<rparr> else st)"

text \<open>
  What can happen to a running bridge: a connection arrives; a socket that is not closed
  receives a message; a socket becomes closed (the library sets its state and emits \<open>close\<close>);
  the host sends a notification. An event of a socket reaches the listener the bridge has
  registered on that socket, if any.
\<close>

datatype event =
    Connection "jsstring option"
  | Message nat jsstring
  | Closed nat
  | SendNotification jsstring json

fun bridge_step :: "(jsstring \<Rightarrow> json option) \<Rightarrow> Bridge \<Rightarrow> event \<Rightarrow> Bridge" where
  "bridge_step json_parse st (Connection token) = on_connection st token"
| "bridge_step json_parse st (Message ws rawStr) =
     (if ws < length (sockets st) \<and> readyState (sockets st ! ws) \<noteq> CLOSED \<and>
         message_listener (sockets st ! ws)
      then onMessage json_parse st ws rawStr
      else st)"
| "bridge_step json_parse st (Closed ws) =
     (if ws < length (sockets st) \<and> readyState (sockets st ! ws) \<noteq> CLOSED then
        (let st1 = update_socket st ws (\<lambda>so. so\<lparr>readyState := CLOSED\<rparr>)
         in if close_listener (sockets st ! ws) then on_close st1 ws else st1)
      else st)"
| "bridge_step json_parse st (SendNotification method params) =
     sendNotification st method params"

definition run :: "(jsstring \<Rightarrow> json option) \<Rightarrow> Bridge \<Rightarrow> event list \<Rightarrow> Bridge" where
  "run json_parse st evs = foldl (bridge_step json_parse) st evs"

text \<open>
  The texts \<open>onMessage\<close> takes for the \<open>notifications/initialized\<close> notification, and for
  a \<open>tools/list\<close> request with a given id: the tests \<open>onMessage\<close> makes on the parsed text.
\<close>

definition initialized_notification :: "(jsstring \<Rightarrow> json option) \<Rightarrow> jsstring \<Rightarrow> bool" where
  "initialized_notification json_parse rawStr =
     (let msg = Some (safeJsonParse json_parse rawStr) in
      truthy msg \<and> member msg (js ''jsonrpc'') = Some (JStr (js ''2.0'')) \<and>
      member msg (js ''id'') = None \<and>
      member msg (js ''method'') = Some (JStr (js ''notifications/initialized'')))"

definition tools_list_request :: "(jsstring \<Rightarrow> json option) \<Rightarrow> jsstring \<Rightarrow> json \<Rightarrow> bool" where
  "tools_list_request json_parse rawStr msg_id =
     (let msg = Some (safeJsonParse json_parse rawStr) in
      truthy msg \<and> member msg (js ''jsonrpc'') = Some (JStr (js ''2.0'')) \<and>
      member msg (js ''id'') = Some msg_id \<and>
      member msg (js ''method'') = Some (JStr (js ''tools/list'')))"

text \<open>A socket on which a message can arrive and reach the bridge's listener.\<close>

definition listening :: "Bridge \<Rightarrow> nat \<Rightarrow> bool" where
  "listening st ws =
     (ws < length (sockets st) \<and> readyState (sockets st ! ws) \<noteq> CLOSED \<and>
      message_listener (sockets st ! ws))"

text \<open>
  Between two states of the bridge, socket \<open>a\<close> has stayed out of the open state and its wire
  and its message listener are as they were.
\<close>

definition same_wire :: "Bridge \<Rightarrow> Bridge \<Rightarrow> nat \<Rightarrow> bool" where
  "same_wire st st' a =
     (a < length (sockets st') \<and> readyState (sockets st' ! a) \<noteq> OPEN \<and>
      sent (sockets st' ! a) = sent (sockets st ! a) \<and>
      message_listener (sockets st' ! a) = message_listener (sockets st ! a))"

section \<open>Sample inputs\<close>

text \<open>
  \<open>JSON.parse\<close> on the three texts the examples below parse, with the value it returns for
  each. The examples apply it to no other text.
\<close>

definition sample_parse :: "jsstring \<Rightarrow> json option" where
  "sample_parse s =
     (if s = js ''{\"type\":\"result\"}'' then
        Some (JObj [(js ''type'', JStr (js ''result''))])
      else if s = js ''{\"jsonrpc\":\"2.0\",\"method\":\"notifications/initialized\"}'' then
        Some (JObj [(js ''jsonrpc'', JStr (js ''2.0'')),
                    (js ''method'', JStr (js ''notifications/initialized''))])
      else if s = js ''{\"jsonrpc\":\"2.0\",\"id\":1,\"method\":\"tools/list\"}'' then
        Some (JObj [(js ''jsonrpc'', JStr (js ''2.0'')), (js ''id'', JNum (Finite 1)),
                    (js ''method'', JStr (js ''tools/list''))])
      else None)"

text \<open>
  A stream of two records and a line of shell noise, the second record wrapped in colour
  codes, the first line ended by CR LF, and the start of a third record at the end.
\<close>

definition sample_stream :: jsstring where
  "sample_stream =
     js ''{\"type\":\"result\"}'' @ [CR, LF] @
     [0x1B] @ js ''[32m{\"type\":\"result\"}'' @ [0x1B] @ js ''[0m'' @ [LF] @
     js ''$ echo'' @ [LF] @ js ''{\"ty''"

text \<open>A text delta of the assistant, as the subprocess streams it.\<close>

definition text_delta_event :: "jsstring \<Rightarrow> StreamEvent" where
  "text_delta_event t =
     [(js ''type'', JStr (js ''stream_event'')),
      (js ''event'', JObj [(js ''type'', JStr (js ''content_block_delta'')),
         (js ''index'', JNum (Finite 0)),
         (js ''delta'', JObj [(js ''type'', JStr (js ''text_delta'')),
            (js ''text'', JStr t)])])]"

text \<open>A delta of a tool call's input: a content block delta that carries no text.\<close>

definition input_json_delta_event :: StreamEvent where
  "input_json_delta_event =
     [(js ''type'', JStr (js ''stream_event'')),
      (js ''event'', JObj [(js ''type'', JStr (js ''content_block_delta'')),
         (js ''index'', JNum (Finite 1)),
         (js ''delta'', JObj [(js ''type'', JStr (js ''input_json_delta'')),
            (js ''partial_json'', JStr (js ''{''))])])]"

text \<open>A process on Linux with no \<open>CLAUDE_CONFIG_DIR\<close>, and a home directory with nothing in it.\<close>

definition sample_process :: process where
  "sample_process =
     \<lparr>CLAUDE_CONFIG_DIR = None, homedir = js ''/home/u'', pid = 4242, platform = js ''linux''\<rparr>"

definition sample_fs :: filesystem where
  "sample_fs = [[js ''/home/u''] \<mapsto> Directory 493]"

text \<open>A bridge that has just started, and the texts of two messages of a client.\<close>

definition sample_token :: jsstring where
  "sample_token = js ''1b9d6bcd-bbfd-4b2d-9b5d-ab8dfbbd4bed''"

definition sample_bridge :: Bridge where
  "sample_bridge = startClaudeIdeBridge sample_token (js ''EnsoAI'')"

definition initialized_text :: jsstring where
  "initialized_text = js ''{\"jsonrpc\":\"2.0\",\"method\":\"notifications/initialized\"}''"

definition tools_list_text :: jsstring where
  "tools_list_text = js ''{\"jsonrpc\":\"2.0\",\"id\":1,\"method\":\"tools/list\"}''"

text \<open>The bridge after a first client has connected with the token.\<close>

definition one_client :: Bridge where
  "one_client = on_connection sample_bridge (Some sample_token)"

text \<open>
  The bridge after a first client has connected and sent \<open>notifications/initialized\<close>, and a
  second client has then connected with the token.
\<close>

definition second_client :: Bridge where
  "second_client =
     run sample_parse sample_bridge
       [Connection (Some sample_token), Message 0 initialized_text,
        Connection (Some sample_token)]"

section \<open>String literals\<close>

lemma of_char_code_unit: "take_bit 16 (of_char c :: nat) = of_char c"
proof -
  have "(of_char c :: nat) < 65536"
    using nat_of_char_less_256[of c] by linarith
  then show ?thesis
    by (simp add: take_bit_nat_eq_self)
qed

lemma code_unit_of_char_inj:
  "(of_nat (of_char c) :: code_unit) = of_nat (of_char d) \<longleftrightarrow> c = d"
  by (simp add: word_of_nat_eq_iff of_char_code_unit)

lemma js_eq_iff [simp]: "js a = js b \<longleftrightarrow> a = b"
proof -
  have "inj (\<lambda>c. of_nat (of_char c) :: code_unit)"
    by (rule injI) (simp add: code_unit_of_char_inj)
  then show ?thesis
    unfolding js_def by simp
qed

lemma js_eq_Nil [simp]: "js a = [] \<longleftrightarrow> a = []"
  by (simp add: js_def)

lemma js_append: "js a @ js b = js (a @ b)"
  by (simp add: js_def)

section \<open>Properties of the line framer\<close>

lemma split_lines_not_Nil: "split_lines s \<noteq> []"
  by (induction s rule: split_lines.induct) (auto split: list.splits)

lemma split_lines_LF: "split_lines (LF # s) = [] # split_lines s"
  by simp

lemma split_lines_CRLF: "split_lines (CR # LF # s) = [] # split_lines s"
  by (simp add: LF_def CR_def)

lemma split_lines_other:
  "c \<noteq> LF \<Longrightarrow> \<not> (c = CR \<and> s \<noteq> [] \<and> hd s = LF) \<Longrightarrow>
   split_lines (c # s) = (c # hd (split_lines s)) # tl (split_lines s)"
  using split_lines_not_Nil[of s] by (cases s; cases "split_lines s") auto

text \<open>A string with a single piece has no separator: the piece is the string.\<close>

lemma split_lines_single: "split_lines s = [l] \<Longrightarrow> l = s"
proof (induction s arbitrary: l rule: split_lines.induct)
  case 1
  then show ?case by simp
next
  case (2 c cs)
  show ?case
  proof (cases "c = LF \<or> (c = CR \<and> cs \<noteq> [] \<and> hd cs = LF)")
    case True
    then consider "c = LF" | ds where "c = CR" "cs = LF # ds"
      by (cases cs) auto
    then obtain t where "split_lines (c # cs) = [] # split_lines t"
      using split_lines_LF split_lines_CRLF by cases blast+
    with "2.prems" have "split_lines t = []"
      by (simp del: split_lines.simps)
    with split_lines_not_Nil show ?thesis
      by blast
  next
    case False
    then have "split_lines (c # cs) = (c # hd (split_lines cs)) # tl (split_lines cs)"
      by (intro split_lines_other) auto
    with "2.prems" have one: "split_lines cs = [hd (split_lines cs)]"
      and l: "l = c # hd (split_lines cs)"
      using split_lines_not_Nil[of cs] by (cases "split_lines cs"; simp)+
    show ?thesis
    proof (cases cs)
      case Nil
      with l show ?thesis by simp
    next
      case (Cons d ds)
      with False have "\<not> (c = CR \<and> d = LF)" by simp
      with "2.IH"(3)[OF _ Cons this one] False l
      show ?thesis by simp
    qed
  qed
qed

text \<open>
  Splitting a concatenation: the complete lines of the first part, then the pieces of its
  unfinished last line followed by the second part.
\<close>

lemma split_lines_append:
  "split_lines (x @ y) =
     butlast (split_lines x) @ split_lines (last (split_lines x) @ y)"
proof (induction x rule: split_lines.induct)
  case 1
  then show ?case by simp
next
  case (2 c cs)
  consider (lf) "c = LF" | (crlf) ds where "c = CR" "cs = LF # ds" "c \<noteq> LF"
    | (one) "c \<noteq> LF" "cs = []"
    | (other) d ds where "c \<noteq> LF" "cs = d # ds" "\<not> (c = CR \<and> d = LF)"
    by (cases cs) auto
  then show ?case
  proof cases
    case lf
    with "2.IH"(1) split_lines_not_Nil[of cs] show ?thesis by simp
  next
    case crlf
    with "2.IH"(2)[of LF ds] split_lines_not_Nil[of ds] show ?thesis
      by (simp add: LF_def CR_def)
  next
    case one
    then show ?thesis by simp
  next
    case other
    have IH: "split_lines (cs @ y) =
        butlast (split_lines cs) @ split_lines (last (split_lines cs) @ y)"
      using "2.IH"(3)[OF other] .
    have x: "split_lines (c # cs) = (c # hd (split_lines cs)) # tl (split_lines cs)"
      using other by (intro split_lines_other) auto
    have xy: "split_lines (c # cs @ y) =
        (c # hd (split_lines (cs @ y))) # tl (split_lines (cs @ y))"
      using other by (intro split_lines_other) auto
    obtain l ls where ls: "split_lines cs = l # ls"
      using split_lines_not_Nil[of cs] by (cases "split_lines cs") auto
    show ?thesis
    proof (cases ls)
      case Nil
      with ls have "l = cs" using split_lines_single by blast
      with ls Nil x show ?thesis by simp
    next
      case (Cons a as)
      with ls IH x xy show ?thesis by simp
    qed
  qed
qed

lemma decode_lines_append:
  "decode_lines jp (xs @ ys) = decode_lines jp xs @ decode_lines jp ys"
  by (induction xs) (auto simp: Let_def split: option.splits)

lemma parse_append:
  "fst (parse jp p (c1 @ c2)) =
     fst (parse jp p c1) @ fst (parse jp (snd (parse jp p c1)) c2)"
  "snd (parse jp p (c1 @ c2)) = snd (parse jp (snd (parse jp p c1)) c2)"
proof -
  let ?x = "buffer p @ c1"
  have s: "split_lines (buffer p @ c1 @ c2) =
      butlast (split_lines ?x) @ split_lines (last (split_lines ?x) @ c2)"
    using split_lines_append[of ?x c2] by simp
  have ne: "split_lines (last (split_lines ?x) @ c2) \<noteq> []"
    by (rule split_lines_not_Nil)
  show "fst (parse jp p (c1 @ c2)) =
     fst (parse jp p c1) @ fst (parse jp (snd (parse jp p c1)) c2)"
    using ne by (simp add: parse_def Let_def s butlast_append decode_lines_append)
  show "snd (parse jp p (c1 @ c2)) = snd (parse jp (snd (parse jp p c1)) c2)"
    using ne by (simp add: parse_def Let_def s)
qed

text \<open>
  C1. For every input string \<open>s\<close>, every offset \<open>k\<close> and every parser, feeding \<open>s\<close> as the two
  chunks before and after offset \<open>k\<close> gives the same events in the same order as feeding \<open>s\<close>
  in one call, and leaves the same buffer.
\<close>

theorem parse_chunk_boundary_invariance:
  "fst (parse json_parse p (take k s)) @
     fst (parse json_parse (snd (parse json_parse p (take k s))) (drop k s)) =
   fst (parse json_parse p s) \<and>
   snd (parse json_parse (snd (parse json_parse p (take k s))) (drop k s)) =
   snd (parse json_parse p s)"
  using parse_append[of json_parse p "take k s" "drop k s"] by simp

theorem parse_chunk_boundary_invariance_witness:
  "fst (parse sample_parse new_parser (take 18 sample_stream)) = [] \<and>
   fst (parse sample_parse (snd (parse sample_parse new_parser (take 18 sample_stream)))
     (drop 18 sample_stream)) =
     [JObj [(js ''type'', JStr (js ''result''))], JObj [(js ''type'', JStr (js ''result''))]] \<and>
   fst (parse sample_parse new_parser sample_stream) =
     [JObj [(js ''type'', JStr (js ''result''))], JObj [(js ''type'', JStr (js ''result''))]]"
proof -
  have first: "fst (parse sample_parse new_parser (take 18 sample_stream)) = []"
    by code_simp
  have whole: "fst (parse sample_parse new_parser sample_stream) =
     [JObj [(js ''type'', JStr (js ''result''))], JObj [(js ''type'', JStr (js ''result''))]]"
    by code_simp
  show ?thesis
    using parse_chunk_boundary_invariance[of sample_parse new_parser 18 sample_stream]
    by (simp add: first whole)
qed

section \<open>Properties of the event classifier\<close>

text \<open>
  C7, as the claim states it, fails: a record of the streaming-delta kind whose nested event
  kind is \<open>content_block_delta\<close> need not yield a text. The delta of a tool call's input is
  such a record, and \<open>extractTextDelta\<close> returns \<open>null\<close> on it.
\<close>

theorem extractTextDelta_delta_record_without_text:
  "map_of input_json_delta_event (js ''type'') = Some (JStr (js ''stream_event'')) \<and>
   member (map_of input_json_delta_event (js ''event'')) (js ''type'') =
     Some (JStr (js ''content_block_delta'')) \<and>
   extractTextDelta input_json_delta_event = None"
  by (simp add: input_json_delta_event_def extractTextDelta_def)

text \<open>
  C7, amended. \<open>extractTextDelta\<close> yields a value exactly for the records whose type is
  \<open>stream_event\<close>, whose nested event kind is \<open>content_block_delta\<close> and whose \<open>delta.text\<close>
  is truthy (for a string: not empty), and the value is that text. For every \<open>assistant\<close>
  record and every \<open>result\<close> record it yields nothing, whatever else they hold.
\<close>

theorem extractTextDelta_characterisation:
  "(extractTextDelta event = Some v \<longleftrightarrow>
      map_of event (js ''type'') = Some (JStr (js ''stream_event'')) \<and>
      member (map_of event (js ''event'')) (js ''type'') =
        Some (JStr (js ''content_block_delta'')) \<and>
      member (member (map_of event (js ''event'')) (js ''delta'')) (js ''text'') = Some v \<and>
      truthy (Some v)) \<and>
   (map_of event (js ''type'') = Some (JStr (js ''assistant'')) \<or>
    map_of event (js ''type'') = Some (JStr (js ''result'')) \<longrightarrow>
      extractTextDelta event = None)"
  by (auto simp: extractTextDelta_def Let_def)

theorem extractTextDelta_characterisation_witness:
  "extractTextDelta (text_delta_event (js ''ab'')) = Some (JStr (js ''ab'')) \<and>
   extractTextDelta
     [(js ''type'', JStr (js ''assistant'')),
      (js ''message'', JObj [(js ''content'',
         JArr [JObj [(js ''type'', JStr (js ''text'')), (js ''text'', JStr (js ''ab''))]])])] = None \<and>
   extractTextDelta
     [(js ''type'', JStr (js ''result'')), (js ''result'', JStr (js ''ab''))] = None"
  using extractTextDelta_characterisation[of "text_delta_event (js ''ab'')" "JStr (js ''ab'')"]
    extractTextDelta_characterisation[of
      "[(js ''type'', JStr (js ''assistant'')),
        (js ''message'', JObj [(js ''content'',
          JArr [JObj [(js ''type'', JStr (js ''text'')), (js ''text'', JStr (js ''ab''))]])])]"]
    extractTextDelta_characterisation[of
      "[(js ''type'', JStr (js ''result'')), (js ''result'', JStr (js ''ab''))]"]
  by (simp add: text_delta_event_def)

text \<open>
  C10. On a record of type \<open>stream_event\<close> with nested event kind \<open>content_block_delta\<close>,
  \<open>extractTextDelta\<close> returns \<open>null\<close> when the delta's text is the empty string, as it does
  when the record has no delta at all.
\<close>

theorem extractTextDelta_empty_text:
  "map_of event (js ''type'') = Some (JStr (js ''stream_event'')) \<and>
   member (map_of event (js ''event'')) (js ''type'') =
     Some (JStr (js ''content_block_delta'')) \<and>
   (member (member (map_of event (js ''event'')) (js ''delta'')) (js ''text'') = Some (JStr []) \<or>
    member (map_of event (js ''event'')) (js ''delta'') = None) \<longrightarrow>
   extractTextDelta event = None"
  by (auto simp: extractTextDelta_def Let_def)

theorem extractTextDelta_empty_text_witness:
  "extractTextDelta (text_delta_event []) = None \<and>
   extractTextDelta
     [(js ''type'', JStr (js ''stream_event'')),
      (js ''event'', JObj [(js ''type'', JStr (js ''content_block_delta''))])] = None"
  using extractTextDelta_empty_text[of "text_delta_event []"]
    extractTextDelta_empty_text[of
      "[(js ''type'', JStr (js ''stream_event'')),
        (js ''event'', JObj [(js ''type'', JStr (js ''content_block_delta''))])]"]
  by (simp add: text_delta_event_def)

text \<open>
  C8. On a \<open>result\<close> record \<open>extractModel\<close> returns the \<open>model\<close> field when it is a string;
  when it is not and \<open>modelUsage\<close> is an object with at least one key, it returns the first
  key of that object; the record \<open>{"type":"result","modelUsage":{"claude-x":{}}}\<close> gives
  \<open>claude-x\<close>. On a record of any other type it returns \<open>null\<close>.
\<close>

theorem extractModel_result_record:
  "(map_of event (js ''type'') = Some (JStr (js ''result'')) \<and>
    map_of event (js ''model'') = Some (JStr m) \<longrightarrow> extractModel event = Some m) \<and>
   (map_of event (js ''type'') = Some (JStr (js ''result'')) \<and>
    (\<forall>m. map_of event (js ''model'') \<noteq> Some (JStr m)) \<and>
    map_of event (js ''modelUsage'') = Some (JObj ((k, u) # usage)) \<longrightarrow>
      extractModel event = Some k) \<and>
   extractModel
     [(js ''type'', JStr (js ''result'')),
      (js ''modelUsage'', JObj [(js ''claude-x'', JObj [])])] = Some (js ''claude-x'') \<and>
   (map_of event (js ''type'') \<noteq> Some (JStr (js ''result'')) \<longrightarrow>
      extractModel event = None)"
  by (auto simp: extractModel_def split: option.splits json.splits)

theorem extractModel_result_record_witness:
  "extractModel
     [(js ''type'', JStr (js ''result'')), (js ''model'', JStr (js ''claude-y'')),
      (js ''modelUsage'', JObj [(js ''claude-x'', JObj [])])] = Some (js ''claude-y'') \<and>
   extractModel
     [(js ''type'', JStr (js ''result'')), (js ''model'', JNull),
      (js ''modelUsage'', JObj [(js ''claude-x'', JObj []), (js ''claude-z'', JObj [])])] =
     Some (js ''claude-x'') \<and>
   extractModel
     [(js ''type'', JStr (js ''system'')), (js ''model'', JStr (js ''claude-y''))] = None"
  using extractModel_result_record[of
      "[(js ''type'', JStr (js ''result'')), (js ''model'', JStr (js ''claude-y'')),
        (js ''modelUsage'', JObj [(js ''claude-x'', JObj [])])]" "js ''claude-y''"]
    extractModel_result_record[of
      "[(js ''type'', JStr (js ''result'')), (js ''model'', JNull),
        (js ''modelUsage'', JObj [(js ''claude-x'', JObj []), (js ''claude-z'', JObj [])])]"
      _ "js ''claude-x''" "JObj []" "[(js ''claude-z'', JObj [])]"]
    extractModel_result_record[of
      "[(js ''type'', JStr (js ''system'')), (js ''model'', JStr (js ''claude-y''))]"]
  by simp

section \<open>Properties of the exit listener\<close>

text \<open>
  C3, as the claim states it, fails: a review is streaming, started from an idle session;
  the subprocess exits with code 0, and the status becomes \<open>complete\<close>.
\<close>

theorem onExit_code_0_changes_status:
  "status (onExit (js ''pty-1'') Idle (js ''pty-1'') 0
     \<lparr>content = js ''ok'', status = Streaming, error = None, cost = None, model = None,
      ptyIdRef = Some (js ''pty-1'')\<rparr>) = Complete \<and>
   Complete \<noteq> Streaming"
  by (simp add: onExit_def)

text \<open>
  C3, amended. An exit with code 0 while the status is not \<open>error\<close> sets the status to
  \<open>complete\<close>; an exit with any code while the status is \<open>error\<close> leaves it \<open>error\<close>. The
  status is here both the session's and the one the listener closed over.
\<close>

theorem onExit_status:
  "(status0 \<noteq> Error \<and> status s \<noteq> Error \<longrightarrow>
      status (onExit ptyId status0 ptyId 0 s) = Complete) \<and>
   (status0 = Error \<and> status s = Error \<longrightarrow>
      status (onExit ptyId status0 ptyId exitCode s) = Error)"
  by (simp add: onExit_def)

theorem onExit_status_witness:
  "status (onExit (js ''pty-1'') Idle (js ''pty-1'') 0
     \<lparr>content = [], status = Streaming, error = None, cost = None, model = None,
      ptyIdRef = Some (js ''pty-1'')\<rparr>) = Complete \<and>
   status (onExit (js ''pty-1'') Error (js ''pty-1'') 1
     \<lparr>content = [], status = Error, error = Some (js ''Unknown error''), cost = None,
      model = None, ptyIdRef = Some (js ''pty-1'')\<rparr>) = Error"
  using onExit_status[of Idle
      "\<lparr>content = [], status = Streaming, error = None, cost = None, model = None,
        ptyIdRef = Some (js ''pty-1'')\<rparr>" "js ''pty-1''"]
    onExit_status[of Error
      "\<lparr>content = [], status = Error, error = Some (js ''Unknown error''), cost = None,
        model = None, ptyIdRef = Some (js ''pty-1'')\<rparr>" "js ''pty-1''" 1]
  by simp

section \<open>Properties of the discovery publisher\<close>

lemma writeFileSync_content:
  "writeFileSync fs p data mode = Inr fs' \<Longrightarrow> \<exists>m. fs' p = Some (File m data)"
  by (auto simp: writeFileSync_def split: option.splits node.splits)

lemma deleteLockFile_of_file:
  "fs (getIdeDir env @ [decimal port @ js ''.lock'']) = Some (File m c) \<Longrightarrow>
   deleteLockFile env fs port = fs(getIdeDir env @ [decimal port @ js ''.lock''] := None)"
  by (simp add: deleteLockFile_def existsSync_def unlinkSync_def)

lemma deleteLockFile_absent:
  "fs (getIdeDir env @ [decimal port @ js ''.lock'']) = None \<Longrightarrow>
   deleteLockFile env fs port = fs"
  by (simp add: deleteLockFile_def existsSync_def)

text \<open>
  C9. When \<open>writeLockFile\<close> succeeds, the file at the path it returns, \<open><ideDir>/<port>.lock\<close>,
  holds the six fields it was given: the process id, the workspace folders, the IDE name,
  the transport \<open>ws\<close>, whether the platform is \<open>win32\<close>, and the token. After
  \<open>deleteLockFile\<close> the file does not exist, and \<open>deleteLockFile\<close> again changes nothing;
  on any file system where the file is absent \<open>deleteLockFile\<close> changes nothing, and it has
  no error to return.
\<close>

theorem lock_file_round_trip:
  "(writeLockFile env fs port token folders name = Inr (fs1, lockPath) \<longrightarrow>
      lockPath = getIdeDir env @ [decimal port @ js ''.lock''] \<and>
      (\<exists>mode. fs1 lockPath = Some (File mode (JObj
         [(js ''pid'', JNum (Finite (real (pid env)))),
          (js ''workspaceFolders'',
             JArr (map JStr (case folders of None \<Rightarrow> [] | Some fo \<Rightarrow> fo))),
          (js ''ideName'', JStr (case name of None \<Rightarrow> js ''EnsoAI'' | Some n \<Rightarrow> n)),
          (js ''transport'', JStr (js ''ws'')),
          (js ''runningInWindows'', JBool (platform env = js ''win32'')),
          (js ''authToken'', JStr token)]))) \<and>
      deleteLockFile env fs1 port lockPath = None \<and>
      deleteLockFile env (deleteLockFile env fs1 port) port = deleteLockFile env fs1 port) \<and>
   (fs (getIdeDir env @ [decimal port @ js ''.lock'']) = None \<longrightarrow>
      deleteLockFile env fs port = fs)"
proof (intro conjI impI)
  assume w: "writeLockFile env fs port token folders name = Inr (fs1, lockPath)"
  let ?p = "getIdeDir env @ [decimal port @ js ''.lock'']"
  let ?payload = "JObj
         [(js ''pid'', JNum (Finite (real (pid env)))),
          (js ''workspaceFolders'',
             JArr (map JStr (case folders of None \<Rightarrow> [] | Some fo \<Rightarrow> fo))),
          (js ''ideName'', JStr (case name of None \<Rightarrow> js ''EnsoAI'' | Some n \<Rightarrow> n)),
          (js ''transport'', JStr (js ''ws'')),
          (js ''runningInWindows'', JBool (platform env = js ''win32'')),
          (js ''authToken'', JStr token)]"
  from w obtain fs0 where p: "lockPath = ?p"
    and wr: "writeFileSync fs0 ?p ?payload 384 = Inr fs1"
    by (auto simp: writeLockFile_def Let_def split: sum.splits)
  show "lockPath = ?p" by (rule p)
  from writeFileSync_content[OF wr] obtain m where m: "fs1 ?p = Some (File m ?payload)"
    by blast
  then show "\<exists>mode. fs1 lockPath = Some (File mode ?payload)"
    using p by blast
  have d: "deleteLockFile env fs1 port = fs1(?p := None)"
    using m by (rule deleteLockFile_of_file)
  then show "deleteLockFile env fs1 port lockPath = None"
    using p by simp
  show "deleteLockFile env (deleteLockFile env fs1 port) port = deleteLockFile env fs1 port"
    by (rule deleteLockFile_absent) (simp add: d)
next
  assume "fs (getIdeDir env @ [decimal port @ js ''.lock'']) = None"
  then show "deleteLockFile env fs port = fs"
    by (rule deleteLockFile_absent)
qed

lemma decimal_51234: "decimal 51234 = js ''51234''"
  by (simp add: decimal.simps js_def)

theorem lock_file_round_trip_witness:
  "\<exists>fs1.
     writeLockFile sample_process sample_fs 51234 (js ''tok'') (Some [js ''/w'']) None =
       Inr (fs1, [js ''/home/u'', js ''.claude'', js ''ide'', js ''51234.lock'']) \<and>
     fs1 [js ''/home/u'', js ''.claude'', js ''ide'', js ''51234.lock''] =
       Some (File 384 (JObj
         [(js ''pid'', JNum (Finite 4242)),
          (js ''workspaceFolders'', JArr [JStr (js ''/w'')]),
          (js ''ideName'', JStr (js ''EnsoAI'')),
          (js ''transport'', JStr (js ''ws'')),
          (js ''runningInWindows'', JBool False),
          (js ''authToken'', JStr (js ''tok''))])) \<and>
     deleteLockFile sample_process fs1 51234
       [js ''/home/u'', js ''.claude'', js ''ide'', js ''51234.lock''] = None \<and>
     deleteLockFile sample_process (deleteLockFile sample_process fs1 51234) 51234 =
       deleteLockFile sample_process fs1 51234"
proof -
  let ?w = "writeLockFile sample_process sample_fs 51234 (js ''tok'') (Some [js ''/w'']) None"
  let ?p = "[js ''/home/u'', js ''.claude'', js ''ide'', js ''51234.lock'']"
  have "case ?w of
          Inl e \<Rightarrow> False
        | Inr (f, p) \<Rightarrow> p = ?p \<and> f p = Some (File 384 (JObj
         [(js ''pid'', JNum (Finite 4242)),
          (js ''workspaceFolders'', JArr [JStr (js ''/w'')]),
          (js ''ideName'', JStr (js ''EnsoAI'')),
          (js ''transport'', JStr (js ''ws'')),
          (js ''runningInWindows'', JBool False),
          (js ''authToken'', JStr (js ''tok''))]))"
    by (simp add: writeLockFile_def sample_process_def sample_fs_def getIdeDir_def ensureDir_def
        mkdirSync_recursive_def writeFileSync_def decimal_51234 upt_rec js_append Let_def)
  then obtain fs1 where w: "?w = Inr (fs1, ?p)"
    and c: "fs1 ?p = Some (File 384 (JObj
         [(js ''pid'', JNum (Finite 4242)),
          (js ''workspaceFolders'', JArr [JStr (js ''/w'')]),
          (js ''ideName'', JStr (js ''EnsoAI'')),
          (js ''transport'', JStr (js ''ws'')),
          (js ''runningInWindows'', JBool False),
          (js ''authToken'', JStr (js ''tok''))]))"
    by (cases ?w) auto
  from lock_file_round_trip[of sample_process sample_fs 51234 "js ''tok''" "Some [js ''/w'']"
      None fs1 ?p] w c
  show ?thesis
    by blast
qed


section \<open>Properties of the bridge server\<close>

lemma onMessage_cases:
  "onMessage jp st ws raw = st \<or> onMessage jp st ws raw = st\<lparr>initialized := True\<rparr> \<or>
   (\<exists>m. onMessage jp st ws raw = update_socket st ws (ws_send m))"
  by (auto simp: onMessage_def Let_def reply_def rpc_error_def split: option.splits)

lemma ws_send_not_open: "readyState so \<noteq> OPEN \<Longrightarrow> ws_send m so = so"
  by (simp add: ws_send_def)

lemma ws_close_not_open: "readyState so \<noteq> OPEN \<Longrightarrow> ws_close c so = so"
  by (simp add: ws_close_def)

lemma ws_send_fields:
  "readyState (ws_send m so) = readyState so"
  "message_listener (ws_send m so) = message_listener so"
  "close_listener (ws_send m so) = close_listener so"
  "closed (ws_send m so) = closed so"
  by (simp_all add: ws_send_def)

lemma ws_close_fields:
  "readyState (ws_close c so) \<noteq> OPEN \<longleftrightarrow> True"
  "sent (ws_close c so) = sent so"
  "message_listener (ws_close c so) = message_listener so"
  "close_listener (ws_close c so) = close_listener so"
  by (simp_all add: ws_close_def)

lemma update_socket_same_wire:
  assumes "a < length (sockets st)" "readyState (sockets st ! a) \<noteq> OPEN"
    and "ws = a \<Longrightarrow> f (sockets st ! a) = sockets st ! a \<or>
           (readyState (f (sockets st ! a)) \<noteq> OPEN \<and> sent (f (sockets st ! a)) = sent (sockets st ! a)
            \<and> message_listener (f (sockets st ! a)) = message_listener (sockets st ! a))"
  shows "same_wire st (update_socket st ws f) a"
  using assms by (cases "ws = a") (auto simp: same_wire_def update_socket_def)

lemma onMessage_same_wire:
  assumes "a < length (sockets st)" "readyState (sockets st ! a) \<noteq> OPEN"
  shows "same_wire st (onMessage jp st ws raw) a"
proof -
  consider "onMessage jp st ws raw = st" | "onMessage jp st ws raw = st\<lparr>initialized := True\<rparr>"
    | m where "onMessage jp st ws raw = update_socket st ws (ws_send m)"
    using onMessage_cases by blast
  then show ?thesis
  proof cases
    case 1
    with assms show ?thesis by (simp add: same_wire_def)
  next
    case 2
    with assms show ?thesis by (simp add: same_wire_def)
  next
    case 3
    with assms show ?thesis
      by (simp add: update_socket_same_wire ws_send_not_open)
  qed
qed

lemma on_connection_same_wire:
  assumes "a < length (sockets st)" "readyState (sockets st ! a) \<noteq> OPEN"
  shows "same_wire st (on_connection st token) a"
  using assms
  by (auto simp: on_connection_def Let_def same_wire_def update_socket_def nth_append
      nth_list_update ws_close_not_open split: option.splits)

lemma same_wire_refl:
  "a < length (sockets st) \<Longrightarrow> readyState (sockets st ! a) \<noteq> OPEN \<Longrightarrow> same_wire st st a"
  by (simp add: same_wire_def)

lemma sendNotification_same_wire:
  assumes "a < length (sockets st)" "readyState (sockets st ! a) \<noteq> OPEN"
  shows "same_wire st (sendNotification st method params) a"
proof (cases "currentClient st")
  case None
  with assms show ?thesis by (simp add: sendNotification_def same_wire_refl)
next
  case (Some c)
  show ?thesis
  proof (cases "readyState (sockets st ! c) = OPEN")
    case True
    with assms have "c \<noteq> a" by auto
    with assms have "same_wire st (update_socket st c (ws_send (Notification method params))) a"
      by (intro update_socket_same_wire) simp_all
    with Some True show ?thesis by (simp add: sendNotification_def)
  next
    case False
    with Some assms show ?thesis by (simp add: sendNotification_def same_wire_refl)
  qed
qed

lemma closed_same_wire:
  assumes "a < length (sockets st)" "readyState (sockets st ! a) \<noteq> OPEN"
  shows "same_wire st (bridge_step jp st (Closed ws)) a"
  using assms
  by (auto simp: same_wire_def update_socket_def on_close_def Let_def nth_list_update)

lemma bridge_step_same_wire:
  assumes "a < length (sockets st)" "readyState (sockets st ! a) \<noteq> OPEN"
  shows "same_wire st (bridge_step jp st ev) a"
proof (cases ev)
  case (Connection token)
  with assms show ?thesis by (simp add: on_connection_same_wire)
next
  case (Message ws raw)
  with assms show ?thesis
    by (simp add: onMessage_same_wire) (simp add: same_wire_def)
next
  case (Closed ws)
  with assms show ?thesis using closed_same_wire by blast
next
  case (SendNotification name payload)
  with assms show ?thesis by (simp add: sendNotification_same_wire)
qed

lemma run_Cons: "run jp st (ev # evs) = run jp (bridge_step jp st ev) evs"
  by (simp add: run_def)

lemma run_Nil: "run jp st [] = st"
  by (simp add: run_def)

lemma run_same_wire:
  "a < length (sockets st) \<Longrightarrow> readyState (sockets st ! a) \<noteq> OPEN \<Longrightarrow>
   same_wire st (run jp st evs) a"
proof (induction evs arbitrary: st)
  case Nil
  then show ?case by (simp add: run_Nil same_wire_def)
next
  case (Cons ev evs)
  have 1: "same_wire st (bridge_step jp st ev) a"
    using Cons.prems by (rule bridge_step_same_wire)
  then have "same_wire (bridge_step jp st ev) (run jp (bridge_step jp st ev) evs) a"
    by (intro Cons.IH) (simp_all add: same_wire_def)
  with 1 show ?case
    by (simp add: run_Cons same_wire_def)
qed


lemma on_connection_unauthorized:
  "token \<noteq> Some (authToken st) \<Longrightarrow>
   on_connection st token =
     st\<lparr>sockets := sockets st @
       [new_socket\<lparr>readyState := CLOSING,
          closed := Some (Close_call (Some 1008) (js ''Unauthorized''))\<rparr>]\<rparr>"
  by (simp add: on_connection_def Let_def update_socket_def ws_close_def new_socket_def)

text \<open>
  C6. A connection whose authorization header is not the token of the bridge (or is missing)
  is closed with code 1008. The bridge registers no listener on it, and the session state
  stays as it was; whatever happens later, a message that arrives on that socket changes
  nothing, and nothing is ever sent on it.
\<close>

theorem unauthorized_connection_is_closed:
  "token \<noteq> Some (authToken st) \<longrightarrow>
     closed (sockets (on_connection st token) ! length (sockets st)) =
       Some (Close_call (Some 1008) (js ''Unauthorized'')) \<and>
     readyState (sockets (on_connection st token) ! length (sockets st)) = CLOSING \<and>
     \<not> message_listener (sockets (on_connection st token) ! length (sockets st)) \<and>
     initialized (on_connection st token) = initialized st \<and>
     currentClient (on_connection st token) = currentClient st \<and>
     (\<forall>evs. sent (sockets (run json_parse (on_connection st token) evs) ! length (sockets st)) = [] \<and>
        (\<forall>rawStr. bridge_step json_parse (run json_parse (on_connection st token) evs)
             (Message (length (sockets st)) rawStr) =
           run json_parse (on_connection st token) evs))"
proof (intro impI)
  assume t: "token \<noteq> Some (authToken st)"
  let ?n = "length (sockets st)"
  let ?st = "on_connection st token"
  have eq: "?st = st\<lparr>sockets := sockets st @
       [new_socket\<lparr>readyState := CLOSING,
          closed := Some (Close_call (Some 1008) (js ''Unauthorized''))\<rparr>]\<rparr>"
    using t by (rule on_connection_unauthorized)
  have so: "sockets ?st ! ?n = new_socket\<lparr>readyState := CLOSING,
          closed := Some (Close_call (Some 1008) (js ''Unauthorized''))\<rparr>"
    by (simp add: eq)
  have n: "?n < length (sockets ?st)" "readyState (sockets ?st ! ?n) \<noteq> OPEN"
    by (simp_all add: eq)
  have later: "sent (sockets (run json_parse ?st evs) ! ?n) = [] \<and>
        (\<forall>rawStr. bridge_step json_parse (run json_parse ?st evs) (Message ?n rawStr) =
           run json_parse ?st evs)" for evs
  proof -
    have "same_wire ?st (run json_parse ?st evs) ?n"
      using n by (rule run_same_wire)
    then have "sent (sockets (run json_parse ?st evs) ! ?n) = []"
      "\<not> message_listener (sockets (run json_parse ?st evs) ! ?n)"
      by (simp_all add: same_wire_def so new_socket_def)
    then show ?thesis by simp
  qed
  show "closed (sockets ?st ! ?n) = Some (Close_call (Some 1008) (js ''Unauthorized'')) \<and>
     readyState (sockets ?st ! ?n) = CLOSING \<and>
     \<not> message_listener (sockets ?st ! ?n) \<and>
     initialized ?st = initialized st \<and>
     currentClient ?st = currentClient st \<and>
     (\<forall>evs. sent (sockets (run json_parse ?st evs) ! ?n) = [] \<and>
        (\<forall>rawStr. bridge_step json_parse (run json_parse ?st evs) (Message ?n rawStr) =
           run json_parse ?st evs))"
    using later by (simp add: so new_socket_def) (simp add: eq)
qed


theorem unauthorized_connection_is_closed_witness:
  "closed (sockets (on_connection sample_bridge (Some (js ''guess''))) ! 0) =
     Some (Close_call (Some 1008) (js ''Unauthorized'')) \<and>
   closed (sockets (on_connection sample_bridge None) ! 0) =
     Some (Close_call (Some 1008) (js ''Unauthorized'')) \<and>
   sent (sockets (run sample_parse (on_connection sample_bridge (Some (js ''guess'')))
     [Message 0 tools_list_text, SendNotification (js ''selection_changed'') (JObj [])]) ! 0) = []"
proof -
  have n: "length (sockets sample_bridge) = 0"
    and t: "Some (js ''guess'') \<noteq> Some (authToken sample_bridge)"
      "None \<noteq> Some (authToken sample_bridge)"
    by (simp_all add: sample_bridge_def startClaudeIdeBridge_def sample_token_def)
  from unauthorized_connection_is_closed[of "Some (js ''guess'')" sample_bridge sample_parse]
    unauthorized_connection_is_closed[of None sample_bridge sample_parse] t
  show ?thesis
    unfolding n by blast
qed

lemma onMessage_currentClient: "currentClient (onMessage jp st ws raw) = currentClient st"
  using onMessage_cases[of jp st ws raw] by (auto simp: update_socket_def)

lemma sendNotification_currentClient:
  "currentClient (sendNotification st method params) = currentClient st"
  by (simp add: sendNotification_def update_socket_def split: option.splits)

lemma sendNotification_other:
  "currentClient st \<noteq> Some i \<Longrightarrow> sockets (sendNotification st method params) ! i = sockets st ! i"
  by (auto simp: sendNotification_def update_socket_def split: option.splits)

lemma bridge_step_currentClient:
  "(\<forall>token. ev \<noteq> Connection token) \<Longrightarrow>
   currentClient (bridge_step jp st ev) = currentClient st \<or>
   currentClient (bridge_step jp st ev) = None"
  by (cases ev)
    (auto simp: onMessage_currentClient sendNotification_currentClient on_close_def
      update_socket_def Let_def)

lemma run_currentClient:
  "(\<forall>token. Connection token \<notin> set evs) \<Longrightarrow>
   currentClient (run jp st evs) = currentClient st \<or> currentClient (run jp st evs) = None"
proof (induction evs arbitrary: st)
  case Nil
  then show ?case by (simp add: run_Nil)
next
  case (Cons ev evs)
  then have ev: "\<forall>token. ev \<noteq> Connection token" and evs: "\<forall>token. Connection token \<notin> set evs"
    by auto
  from Cons.IH[OF evs, of "bridge_step jp st ev"] bridge_step_currentClient[OF ev, of jp st]
  show ?case
    unfolding run_Cons by auto
qed

lemma on_connection_authorized:
  assumes "currentClient st = Some a" "a < length (sockets st)" "readyState (sockets st ! a) = OPEN"
  shows "on_connection st (Some (authToken st)) =
    st\<lparr>currentClient := Some (length (sockets st)),
       sockets := (sockets st)
           [a := (sockets st ! a)\<lparr>readyState := CLOSING, closed := Some (Close_call None [])\<rparr>] @
         [new_socket\<lparr>message_listener := True, close_listener := True\<rparr>]\<rparr>"
  using assms
  by (simp add: on_connection_def Let_def update_socket_def ws_close_def nth_append
      list_update_append)

text \<open>
  C5. A client is active and open; a second client connects with the token of the bridge.
  Then the socket of the first is closing, by a call of \<open>close\<close>; the second is the current
  client and open; a notification sent now is put on the wire of the second. Whatever happens
  later, nothing more is ever put on the wire of the first; and as long as no further client
  connects, \<open>sendNotification\<close> puts nothing on the wire of any socket but the second.
\<close>

theorem second_connection_displaces_first:
  "currentClient st = Some a \<and> a < length (sockets st) \<and> readyState (sockets st ! a) = OPEN \<longrightarrow>
     readyState (sockets (on_connection st (Some (authToken st))) ! a) = CLOSING \<and>
     closed (sockets (on_connection st (Some (authToken st))) ! a) = Some (Close_call None []) \<and>
     currentClient (on_connection st (Some (authToken st))) = Some (length (sockets st)) \<and>
     readyState (sockets (on_connection st (Some (authToken st))) ! length (sockets st)) = OPEN \<and>
     sent (sockets (sendNotification (on_connection st (Some (authToken st))) method params) !
       length (sockets st)) = [Notification method params] \<and>
     (\<forall>evs. sent (sockets (run json_parse (on_connection st (Some (authToken st))) evs) ! a) =
        sent (sockets st ! a)) \<and>
     (\<forall>evs i method' params'. (\<forall>token. Connection token \<notin> set evs) \<and> i \<noteq> length (sockets st) \<longrightarrow>
        sockets (sendNotification (run json_parse (on_connection st (Some (authToken st))) evs)
          method' params') ! i =
        sockets (run json_parse (on_connection st (Some (authToken st))) evs) ! i)"
proof (intro impI)
  assume "currentClient st = Some a \<and> a < length (sockets st) \<and> readyState (sockets st ! a) = OPEN"
  then have a: "currentClient st = Some a" "a < length (sockets st)"
    "readyState (sockets st ! a) = OPEN"
    by simp_all
  let ?n = "length (sockets st)"
  let ?st = "on_connection st (Some (authToken st))"
  have eq: "?st = st\<lparr>currentClient := Some ?n,
       sockets := (sockets st)
           [a := (sockets st ! a)\<lparr>readyState := CLOSING, closed := Some (Close_call None [])\<rparr>] @
         [new_socket\<lparr>message_listener := True, close_listener := True\<rparr>]\<rparr>"
    using a by (rule on_connection_authorized)
  have sa: "sockets ?st ! a =
      (sockets st ! a)\<lparr>readyState := CLOSING, closed := Some (Close_call None [])\<rparr>"
    using a by (simp add: eq nth_append)
  have sn: "sockets ?st ! ?n = new_socket\<lparr>message_listener := True, close_listener := True\<rparr>"
    by (simp add: eq nth_append)
  have cur: "currentClient ?st = Some ?n"
    by (simp add: eq)
  have len: "length (sockets ?st) = Suc ?n"
    by (simp add: eq)
  have note1: "sent (sockets (sendNotification ?st method params) ! ?n) =
      [Notification method params]"
    by (simp add: sendNotification_def cur sn new_socket_def update_socket_def len ws_send_def)
  have never: "sent (sockets (run json_parse ?st evs) ! a) = sent (sockets st ! a)" for evs
  proof -
    have "same_wire ?st (run json_parse ?st evs) a"
      using a by (intro run_same_wire) (simp_all add: sa len)
    then show ?thesis
      by (simp add: same_wire_def sa)
  qed
  have only: "sockets (sendNotification (run json_parse ?st evs) method' params') ! i =
        sockets (run json_parse ?st evs) ! i"
    if "\<forall>token. Connection token \<notin> set evs" "i \<noteq> ?n" for evs i method' params'
  proof -
    have "currentClient (run json_parse ?st evs) = Some ?n \<or>
        currentClient (run json_parse ?st evs) = None"
      using run_currentClient[OF that(1), of json_parse ?st] cur by simp
    with that(2) have "currentClient (run json_parse ?st evs) \<noteq> Some i"
      by auto
    then show ?thesis
      by (rule sendNotification_other)
  qed
  show "readyState (sockets ?st ! a) = CLOSING \<and>
     closed (sockets ?st ! a) = Some (Close_call None []) \<and>
     currentClient ?st = Some ?n \<and>
     readyState (sockets ?st ! ?n) = OPEN \<and>
     sent (sockets (sendNotification ?st method params) ! ?n) = [Notification method params] \<and>
     (\<forall>evs. sent (sockets (run json_parse ?st evs) ! a) = sent (sockets st ! a)) \<and>
     (\<forall>evs i method' params'. (\<forall>token. Connection token \<notin> set evs) \<and> i \<noteq> ?n \<longrightarrow>
        sockets (sendNotification (run json_parse ?st evs) method' params') ! i =
        sockets (run json_parse ?st evs) ! i)"
    using note1 never only cur by (simp add: sa sn new_socket_def)
qed


lemmas bridge_defs = run_def sample_bridge_def startClaudeIdeBridge_def on_connection_def
  onMessage_def sample_parse_def safeJsonParse_def reply_def rpc_error_def update_socket_def
  ws_send_def ws_close_def new_socket_def sample_token_def initialized_text_def
  tools_list_text_def Let_def sendNotification_def MCP_TOOLS_def on_close_def

lemma one_client_eval:
  "one_client =
     \<lparr>authToken = sample_token, ideName = js ''EnsoAI'', initialized = False,
      currentClient = Some 0,
      sockets = [\<lparr>readyState = OPEN, closed = None, sent = [], message_listener = True,
                  close_listener = True\<rparr>]\<rparr>"
  by (simp add: one_client_def bridge_defs)

theorem second_connection_displaces_first_witness:
  "currentClient one_client = Some 0 \<and>
   readyState (sockets one_client ! 0) = OPEN \<and>
   readyState (sockets (on_connection one_client (Some sample_token)) ! 0) = CLOSING \<and>
   currentClient (on_connection one_client (Some sample_token)) = Some 1 \<and>
   sent (sockets (sendNotification (on_connection one_client (Some sample_token))
     (js ''selection_changed'') (JObj [])) ! 1) =
     [Notification (js ''selection_changed'') (JObj [])] \<and>
   sent (sockets (run sample_parse (on_connection one_client (Some sample_token))
     [SendNotification (js ''at_mentioned'') (JObj []), Message 0 tools_list_text]) ! 0) = []"
proof -
  have a: "currentClient one_client = Some 0" "0 < length (sockets one_client)"
    "readyState (sockets one_client ! 0) = OPEN" "authToken one_client = sample_token"
    "length (sockets one_client) = 1" "sent (sockets one_client ! 0) = []"
    by (simp_all add: one_client_eval)
  from second_connection_displaces_first[of one_client 0 "js ''selection_changed''" "JObj []"
      sample_parse] a
  show ?thesis
    by simp
qed

text \<open>
  C2, as the claim states it, fails. A first client connects and sends
  \<open>notifications/initialized\<close>; a second client connects and displaces it. For the second
  connection \<open>initialized\<close> is true from the start, and its \<open>tools/list\<close> request, with no
  notification sent on that connection, is answered with the tool list.
\<close>

theorem second_connection_is_initialized:
  "currentClient second_client = Some 1 \<and>
   sent (sockets second_client ! 1) = [] \<and>
   initialized second_client \<and>
   sent (sockets (bridge_step sample_parse second_client (Message 1 tools_list_text)) ! 1) =
     [Response (JNum (Finite 1)) (JObj [(js ''tools'', JArr [])])]"
  by (simp add: second_client_def bridge_defs)


lemma onMessage_initialized:
  "initialized (onMessage jp st ws rawStr) \<longleftrightarrow>
     initialized st \<or> initialized_notification jp rawStr"
  by (auto simp: onMessage_def initialized_notification_def Let_def reply_def rpc_error_def
      update_socket_def split: option.splits)

lemma on_connection_initialized: "initialized (on_connection st header) = initialized st"
  by (simp add: on_connection_def Let_def update_socket_def split: option.splits)

lemma bridge_step_initialized:
  "initialized (bridge_step jp st ev) \<longleftrightarrow>
     initialized st \<or>
     (\<exists>ws rawStr. ev = Message ws rawStr \<and> listening st ws \<and> initialized_notification jp rawStr)"
proof (cases ev)
  case (Connection header)
  then show ?thesis by (simp add: on_connection_initialized)
next
  case (Message ws rawStr)
  then show ?thesis by (auto simp: onMessage_initialized listening_def)
next
  case (Closed ws)
  then show ?thesis by (simp add: on_close_def update_socket_def Let_def)
next
  case (SendNotification name payload)
  then show ?thesis by (simp add: sendNotification_def update_socket_def split: option.splits)
qed

lemma run_initialized: "initialized st \<Longrightarrow> initialized (run jp st evs)"
proof (induction evs arbitrary: st)
  case Nil
  then show ?case by (simp add: run_Nil)
next
  case (Cons ev evs)
  then show ?case by (simp add: run_Cons bridge_step_initialized)
qed

lemma run_not_initialized:
  "\<not> initialized st \<Longrightarrow>
   (\<forall>ws rawStr. Message ws rawStr \<in> set evs \<longrightarrow> \<not> initialized_notification jp rawStr) \<Longrightarrow>
   \<not> initialized (run jp st evs)"
proof (induction evs arbitrary: st)
  case Nil
  then show ?case by (simp add: run_Nil)
next
  case (Cons ev evs)
  from Cons.prems have "\<not> initialized (bridge_step jp st ev)"
    by (auto simp: bridge_step_initialized)
  moreover from Cons.prems
  have "\<forall>ws rawStr. Message ws rawStr \<in> set evs \<longrightarrow> \<not> initialized_notification jp rawStr"
    by auto
  ultimately show ?case
    using Cons.IH by (simp add: run_Cons)
qed

lemma onMessage_tools_list:
  assumes "tools_list_request jp rawStr msg_id"
    and "ws < length (sockets st)" "readyState (sockets st ! ws) = OPEN"
  shows "sent (sockets (onMessage jp st ws rawStr) ! ws) =
     sent (sockets st ! ws) @
       [if initialized st then Response msg_id (JObj [(js ''tools'', JArr MCP_TOOLS)])
        else Error_response msg_id (- 32002) Server_not_initialized]"
  using assms
  by (simp add: onMessage_def tools_list_request_def Let_def reply_def rpc_error_def
      update_socket_def ws_send_def)

text \<open>
  C4. A \<open>tools/list\<close> request arrives on an open socket. If the bridge has run from its
  start through events among which no message is the \<open>notifications/initialized\<close>
  notification, the request is answered with the error \<open>-32002\<close> and the request's id. If
  the bridge has taken that notification from a listening socket, then, whatever has
  happened since, the request is answered with \<open>{tools: MCP_TOOLS}\<close>; and \<open>MCP_TOOLS\<close> is
  empty.
\<close>

theorem tools_list_before_and_after_initialized:
  "(tools_list_request json_parse rawStr msg_id \<and>
    ws < length (sockets st) \<and> readyState (sockets st ! ws) = OPEN \<longrightarrow>
      (st = run json_parse (startClaudeIdeBridge token name) evs \<and>
       (\<forall>ws' rawStr'. Message ws' rawStr' \<in> set evs \<longrightarrow>
          \<not> initialized_notification json_parse rawStr') \<longrightarrow>
         sent (sockets (onMessage json_parse st ws rawStr) ! ws) =
           sent (sockets st ! ws) @ [Error_response msg_id (- 32002) Server_not_initialized]) \<and>
      (st = run json_parse (bridge_step json_parse st0 (Message ws0 rawStr0)) evs \<and>
       listening st0 ws0 \<and> initialized_notification json_parse rawStr0 \<longrightarrow>
         sent (sockets (onMessage json_parse st ws rawStr) ! ws) =
           sent (sockets st ! ws) @ [Response msg_id (JObj [(js ''tools'', JArr [])])])) \<and>
   MCP_TOOLS = []"
proof (intro conjI impI)
  assume r: "tools_list_request json_parse rawStr msg_id \<and>
    ws < length (sockets st) \<and> readyState (sockets st ! ws) = OPEN"
  assume "st = run json_parse (startClaudeIdeBridge token name) evs \<and>
       (\<forall>ws' rawStr'. Message ws' rawStr' \<in> set evs \<longrightarrow>
          \<not> initialized_notification json_parse rawStr')"
  then have "\<not> initialized st"
    using run_not_initialized[of "startClaudeIdeBridge token name" evs json_parse]
    by (simp add: startClaudeIdeBridge_def)
  with r onMessage_tools_list[of json_parse rawStr msg_id ws st]
  show "sent (sockets (onMessage json_parse st ws rawStr) ! ws) =
      sent (sockets st ! ws) @ [Error_response msg_id (- 32002) Server_not_initialized]"
    by simp
next
  assume r: "tools_list_request json_parse rawStr msg_id \<and>
    ws < length (sockets st) \<and> readyState (sockets st ! ws) = OPEN"
  assume a: "st = run json_parse (bridge_step json_parse st0 (Message ws0 rawStr0)) evs \<and>
       listening st0 ws0 \<and> initialized_notification json_parse rawStr0"
  then have "initialized (bridge_step json_parse st0 (Message ws0 rawStr0))"
    using bridge_step_initialized[of json_parse st0 "Message ws0 rawStr0"] by blast
  with a have "initialized st"
    by (simp add: run_initialized)
  with r onMessage_tools_list[of json_parse rawStr msg_id ws st]
  show "sent (sockets (onMessage json_parse st ws rawStr) ! ws) =
      sent (sockets st ! ws) @ [Response msg_id (JObj [(js ''tools'', JArr [])])]"
    by (simp add: MCP_TOOLS_def)
next
  show "MCP_TOOLS = []" by (simp add: MCP_TOOLS_def)
qed

lemma sample_request: "tools_list_request sample_parse tools_list_text (JNum (Finite 1))"
  by (simp add: tools_list_request_def safeJsonParse_def sample_parse_def tools_list_text_def)

lemma sample_notification: "initialized_notification sample_parse initialized_text"
  by (simp add: initialized_notification_def safeJsonParse_def sample_parse_def
      initialized_text_def)

lemma one_client_run: "one_client = run sample_parse (startClaudeIdeBridge sample_token (js ''EnsoAI''))
    [Connection (Some sample_token)]"
  by (simp add: one_client_def sample_bridge_def run_def)

theorem tools_list_before_and_after_initialized_witness:
  "sent (sockets (onMessage sample_parse one_client 0 tools_list_text) ! 0) =
     [Error_response (JNum (Finite 1)) (- 32002) Server_not_initialized] \<and>
   sent (sockets (onMessage sample_parse
       (bridge_step sample_parse one_client (Message 0 initialized_text)) 0 tools_list_text) ! 0) =
     [Response (JNum (Finite 1)) (JObj [(js ''tools'', JArr [])])]"
proof -
  have l: "listening one_client 0" "0 < length (sockets one_client)"
    "readyState (sockets one_client ! 0) = OPEN" "sent (sockets one_client ! 0) = []"
    by (simp_all add: listening_def one_client_eval)
  let ?st = "bridge_step sample_parse one_client (Message 0 initialized_text)"
  have st: "?st = one_client\<lparr>initialized := True\<rparr>"
    by (simp add: one_client_eval bridge_defs)
  have request1: "tools_list_request sample_parse tools_list_text (JNum (Finite 1)) \<and>
      0 < length (sockets one_client) \<and> readyState (sockets one_client ! 0) = OPEN"
    by (simp add: sample_request one_client_eval)
  have request2: "tools_list_request sample_parse tools_list_text (JNum (Finite 1)) \<and>
      0 < length (sockets ?st) \<and> readyState (sockets ?st ! 0) = OPEN"
    unfolding st by (simp add: sample_request one_client_eval)
  have no_notification: "one_client =
        run sample_parse (startClaudeIdeBridge sample_token (js ''EnsoAI''))
          [Connection (Some sample_token)] \<and>
      (\<forall>ws' rawStr'. Message ws' rawStr' \<in> set [Connection (Some sample_token)] \<longrightarrow>
         \<not> initialized_notification sample_parse rawStr')"
    using one_client_run by simp
  have notification: "?st = run sample_parse ?st [] \<and> listening one_client 0 \<and>
      initialized_notification sample_parse initialized_text"
    by (simp add: run_Nil l sample_notification del: bridge_step.simps)
  have before: "sent (sockets (onMessage sample_parse one_client 0 tools_list_text) ! 0) =
      sent (sockets one_client ! 0) @
        [Error_response (JNum (Finite 1)) (- 32002) Server_not_initialized]"
    using tools_list_before_and_after_initialized[where json_parse = sample_parse
        and rawStr = tools_list_text and msg_id = "JNum (Finite 1)" and ws = 0
        and st = one_client and token = sample_token and name = "js ''EnsoAI''"
        and evs = "[Connection (Some sample_token)]" and st0 = one_client and ws0 = 0
        and rawStr0 = initialized_text]
      request1 no_notification
    by blast
  have after: "sent (sockets (onMessage sample_parse ?st 0 tools_list_text) ! 0) =
      sent (sockets ?st ! 0) @ [Response (JNum (Finite 1)) (JObj [(js ''tools'', JArr [])])]"
    using tools_list_before_and_after_initialized[where json_parse = sample_parse
        and rawStr = tools_list_text and msg_id = "JNum (Finite 1)" and ws = 0
        and st = ?st and token = sample_token and name = "js ''EnsoAI''"
        and evs = "[]" and st0 = one_client and ws0 = 0 and rawStr0 = initialized_text]
      request2 notification
    by blast
  have wire: "sent (sockets one_client ! 0) = []" "sent (sockets ?st ! 0) = []"
    unfolding st by (simp_all add: one_client_eval)
  from before after wire show ?thesis by (simp del: bridge_step.simps)
qed

text \<open>
  C2, amended. \<open>initialized\<close> is state of the one handler of the bridge, shared by all its
  connections. It is false when the bridge starts. After a step of the bridge it is true
  exactly when it was true before or the step is a message, on a socket that is listening,
  that is the \<open>notifications/initialized\<close> notification; a socket is listening from its
  connection on exactly when it came with the token. A new connection does not change
  \<open>initialized\<close>: a client that displaces another starts with the value the bridge has.
\<close>

theorem initialized_is_state_of_the_bridge:
  "\<not> initialized (startClaudeIdeBridge token name) \<and>
   (initialized (bridge_step json_parse st ev) \<longleftrightarrow>
      initialized st \<or>
      (\<exists>ws rawStr. ev = Message ws rawStr \<and> listening st ws \<and>
         initialized_notification json_parse rawStr)) \<and>
   (listening (on_connection st header) (length (sockets st)) \<longleftrightarrow>
      header = Some (authToken st)) \<and>
   initialized (on_connection st header) = initialized st"
proof -
  have start: "\<not> initialized (startClaudeIdeBridge token name)"
    by (simp add: startClaudeIdeBridge_def)
  have listener: "listening (on_connection st header) (length (sockets st)) \<longleftrightarrow>
      header = Some (authToken st)"
    by (auto simp: listening_def on_connection_def Let_def update_socket_def ws_close_def
        new_socket_def nth_append split: option.splits)
  from start listener bridge_step_initialized[of json_parse st ev]
    on_connection_initialized[of st header]
  show ?thesis
    by blast
qed

theorem initialized_is_state_of_the_bridge_witness:
  "\<not> initialized sample_bridge \<and>
   \<not> initialized one_client \<and>
   initialized (bridge_step sample_parse one_client (Message 0 initialized_text)) \<and>
   initialized (on_connection (bridge_step sample_parse one_client (Message 0 initialized_text))
     (Some sample_token))"
proof -
  have l: "listening one_client 0"
    by (simp add: listening_def one_client_eval)
  have 1: "\<not> initialized sample_bridge"
    using initialized_is_state_of_the_bridge[where token = sample_token and name = "js ''EnsoAI''"]
    by (simp add: sample_bridge_def)
  have 2: "\<not> initialized one_client"
    using initialized_is_state_of_the_bridge[where st = sample_bridge
        and header = "Some sample_token"] 1
    by (simp add: one_client_def)
  have 3: "initialized (bridge_step sample_parse one_client (Message 0 initialized_text))"
    using initialized_is_state_of_the_bridge[where json_parse = sample_parse
        and st = one_client and ev = "Message 0 initialized_text"] l sample_notification
    by blast
  have 4: "initialized (on_connection
      (bridge_step sample_parse one_client (Message 0 initialized_text)) (Some sample_token))"
    using initialized_is_state_of_the_bridge[where
        st = "bridge_step sample_parse one_client (Message 0 initialized_text)"
        and header = "Some sample_token"] 3
    by simp
  from 1 2 3 4 show ?thesis by blast
qed


end
